theory Spec2Isabelle
  imports Complex_Main "HOL-Library.Word"
begin

unbundle bit_operations_syntax

section \<open>Python primitives used by \<open>quantum_collapse_poc.py\<close>\<close>

text \<open>
  Strings are held as \<open>string\<close>, the list of their UTF-8 bytes, so \<open>str.encode()\<close> only
  changes the element type. Python integers are \<open>int\<close>. The exceptions that the modelled
  expressions can raise are values of \<open>py_error\<close>.
\<close>

datatype py_error = ValueError | ZeroDivisionError

type_synonym byte = "8 word"

definition digit_char :: "nat \<Rightarrow> char" where
  "digit_char d = char_of (48 + d)"

text \<open>\<open>str(n)\<close> for a non-negative integer: the decimal digits, most significant first.\<close>

function str_nat :: "nat \<Rightarrow> string" where
  "str_nat n = (if n < 10 then [digit_char n] else str_nat (n div 10) @ [digit_char (n mod 10)])"
  by pat_completeness auto
termination
  by (relation "measure (\<lambda>n. n)") auto

declare str_nat.simps [simp del]

text \<open>\<open>str(i)\<close> for any integer: a minus sign in front of the digits of a negative one.\<close>

definition str_int :: "int \<Rightarrow> string" where
  "str_int i = (if i < 0 then CHR ''-'' # str_nat (nat (- i)) else str_nat (nat i))"

text \<open>\<open>s.encode()\<close>: the UTF-8 bytes of the string.\<close>

definition encode :: "string \<Rightarrow> byte list" where
  "encode s = map (\<lambda>c. of_char c) s"

text \<open>\<open>xs[-10:]\<close>: the slice starts at \<open>max (len xs - 10) 0\<close>.\<close>

definition last10 :: "'a list \<Rightarrow> 'a list" where
  "last10 xs = drop (length xs - 10) xs"

subsection \<open>\<open>hashlib.sha256\<close>\<close>

text \<open>
  SHA-256 as in FIPS 180-4, on 32-bit words. The length field of the padding is the bit
  length of the message modulo \<open>2 ^ 64\<close>.
\<close>

type_synonym u32 = "32 word"

definition rotr :: "nat \<Rightarrow> u32 \<Rightarrow> u32" where
  "rotr n x = drop_bit n x OR push_bit (32 - n) x"

definition Ch :: "u32 \<Rightarrow> u32 \<Rightarrow> u32 \<Rightarrow> u32" where
  "Ch x y z = (x AND y) XOR (NOT x AND z)"

definition Maj :: "u32 \<Rightarrow> u32 \<Rightarrow> u32 \<Rightarrow> u32" where
  "Maj x y z = (x AND y) XOR (x AND z) XOR (y AND z)"

definition big_sigma0 :: "u32 \<Rightarrow> u32" where
  "big_sigma0 x = rotr 2 x XOR rotr 13 x XOR rotr 22 x"

definition big_sigma1 :: "u32 \<Rightarrow> u32" where
  "big_sigma1 x = rotr 6 x XOR rotr 11 x XOR rotr 25 x"

definition small_sigma0 :: "u32 \<Rightarrow> u32" where
  "small_sigma0 x = rotr 7 x XOR rotr 18 x XOR drop_bit 3 x"

definition small_sigma1 :: "u32 \<Rightarrow> u32" where
  "small_sigma1 x = rotr 17 x XOR rotr 19 x XOR drop_bit 10 x"

text \<open>The round constants, eight to a row as the standard prints them.\<close>

definition sha256_K :: "u32 list" where
  "sha256_K = concat
    [[0x428a2f98, 0x71374491, 0xb5c0fbcf, 0xe9b5dba5, 0x3956c25b, 0x59f111f1, 0x923f82a4, 0xab1c5ed5],
     [0xd807aa98, 0x12835b01, 0x243185be, 0x550c7dc3, 0x72be5d74, 0x80deb1fe, 0x9bdc06a7, 0xc19bf174],
     [0xe49b69c1, 0xefbe4786, 0x0fc19dc6, 0x240ca1cc, 0x2de92c6f, 0x4a7484aa, 0x5cb0a9dc, 0x76f988da],
     [0x983e5152, 0xa831c66d, 0xb00327c8, 0xbf597fc7, 0xc6e00bf3, 0xd5a79147, 0x06ca6351, 0x14292967],
     [0x27b70a85, 0x2e1b2138, 0x4d2c6dfc, 0x53380d13, 0x650a7354, 0x766a0abb, 0x81c2c92e, 0x92722c85],
     [0xa2bfe8a1, 0xa81a664b, 0xc24b8b70, 0xc76c51a3, 0xd192e819, 0xd6990624, 0xf40e3585, 0x106aa070],
     [0x19a4c116, 0x1e376c08, 0x2748774c, 0x34b0bcb5, 0x391c0cb3, 0x4ed8aa4a, 0x5b9cca4f, 0x682e6ff3],
     [0x748f82ee, 0x78a5636f, 0x84c87814, 0x8cc70208, 0x90befffa, 0xa4506ceb, 0xbef9a3f7, 0xc67178f2]]"

text \<open>Padding: the byte \<open>0x80\<close>, zero bytes up to 56 modulo 64, the 64-bit big-endian bit length.\<close>

definition be_bytes64 :: "64 word \<Rightarrow> byte list" where
  "be_bytes64 w = map (\<lambda>k. ucast (drop_bit (8 * (7 - k)) w)) [0..<8]"

definition sha256_pad :: "byte list \<Rightarrow> byte list" where
  "sha256_pad m =
     m @ [0x80] @ replicate ((119 - length m mod 64) mod 64) 0
       @ be_bytes64 (of_nat (8 * length m))"

text \<open>Four bytes, most significant first, make one word; 64 bytes make the 16 words of a block.\<close>

fun be_words :: "byte list \<Rightarrow> u32 list" where
  "be_words (a # b # c # d # rest) =
     (push_bit 24 (ucast a) OR push_bit 16 (ucast b) OR push_bit 8 (ucast c) OR ucast d)
       # be_words rest"
| "be_words _ = []"

fun blocks :: "nat \<Rightarrow> u32 list \<Rightarrow> u32 list list" where
  "blocks 0 ws = []"
| "blocks (Suc n) ws = take 16 ws # blocks n (drop 16 ws)"

text \<open>The message schedule: 48 further words appended to the 16 of the block.\<close>

fun schedule :: "nat \<Rightarrow> u32 list \<Rightarrow> u32 list" where
  "schedule 0 w = w"
| "schedule (Suc n) w =
     (let t = length w
      in schedule n (w @ [small_sigma1 (w ! (t - 2)) + w ! (t - 7)
                          + small_sigma0 (w ! (t - 15)) + w ! (t - 16)]))"

type_synonym sha_state = "u32 \<times> u32 \<times> u32 \<times> u32 \<times> u32 \<times> u32 \<times> u32 \<times> u32"

definition sha256_round :: "u32 \<times> u32 \<Rightarrow> sha_state \<Rightarrow> sha_state" where
  "sha256_round kw s =
     (case s of (a, b, c, d, e, f, g, h) \<Rightarrow>
        let t1 = h + big_sigma1 e + Ch e f g + fst kw + snd kw;
            t2 = big_sigma0 a + Maj a b c
        in (t1 + t2, a, b, c, d + t1, e, f, g))"

definition sha256_compress :: "sha_state \<Rightarrow> u32 list \<Rightarrow> sha_state" where
  "sha256_compress s block =
     (case s of (a, b, c, d, e, f, g, h) \<Rightarrow>
        case fold sha256_round (zip sha256_K (schedule 48 block)) s of
          (a', b', c', d', e', f', g', h') \<Rightarrow>
            (a + a', b + b', c + c', d + d', e + e', f + f', g + g', h + h'))"

definition be_bytes32 :: "u32 \<Rightarrow> byte list" where
  "be_bytes32 w = [ucast (drop_bit 24 w), ucast (drop_bit 16 w), ucast (drop_bit 8 w), ucast w]"

definition sha256_init :: sha_state where
  "sha256_init =
     (0x6a09e667, 0xbb67ae85, 0x3c6ef372, 0xa54ff53a, 0x510e527f, 0x9b05688c, 0x1f83d9ab, 0x5be0cd19)"

definition sha256 :: "byte list \<Rightarrow> byte list" where
  "sha256 m =
     (let p = sha256_pad m
      in case foldl sha256_compress sha256_init (blocks (length p div 64) (be_words p)) of
           (a, b, c, d, e, f, g, h) \<Rightarrow> concat (map be_bytes32 [a, b, c, d, e, f, g, h]))"

text \<open>\<open>hexdigest()\<close>: two lower-case hexadecimal digits for each byte.\<close>

definition hex_char :: "nat \<Rightarrow> char" where
  "hex_char d = (if d < 10 then char_of (48 + d) else char_of (87 + d))"

definition hexdigest :: "byte list \<Rightarrow> string" where
  "hexdigest bs = concat (map (\<lambda>b. [hex_char (unat b div 16), hex_char (unat b mod 16)]) bs)"

text \<open>
  \<open>int(s, 16)\<close> on a string of hexadecimal digits. Python raises \<open>ValueError\<close> on the
  empty string and on a character that is no digit. (Python also accepts a sign, a
  \<open>0x\<close> prefix, underscores and surrounding blanks, which no \<open>hexdigest()\<close> contains;
  they are a \<open>ValueError\<close> here.)
\<close>

definition hex_value :: "char \<Rightarrow> nat option" where
  "hex_value c =
     (let n = (of_char c :: nat)
      in if 48 \<le> n \<and> n \<le> 57 then Some (n - 48)
         else if 97 \<le> n \<and> n \<le> 102 then Some (n - 87)
         else if 65 \<le> n \<and> n \<le> 70 then Some (n - 55)
         else None)"

fun int16_digits :: "int \<Rightarrow> string \<Rightarrow> py_error + int" where
  "int16_digits acc [] = Inr acc"
| "int16_digits acc (c # cs) =
     (case hex_value c of
        None \<Rightarrow> Inl ValueError
      | Some d \<Rightarrow> int16_digits (16 * acc + int d) cs)"

definition int16 :: "string \<Rightarrow> py_error + int" where
  "int16 s = (if s = [] then Inl ValueError else int16_digits 0 s)"

subsection \<open>\<open>random.seed(); random.random()\<close>\<close>

text \<open>
  \<open>random.seed()\<close> re-seeds the process-wide generator from the operating system, and
  \<open>random.random()\<close> then returns \<open>k / 2 ^ 53\<close> for a 53-bit \<open>k\<close>. What the operating
  system supplies is the environment of the program: \<open>rng n\<close> is the \<open>k\<close> of the
  \<open>n\<close>-th draw still to come, and a draw shifts the sequence by one.
\<close>

type_synonym entropy = "nat \<Rightarrow> 53 word"

definition random_random :: "entropy \<Rightarrow> real \<times> entropy" where
  "random_random rng = (real (unat (rng 0)) / 2 ^ 53, \<lambda>n. rng (Suc n))"

subsection \<open>Floating-point division and multiplication\<close>

text \<open>
  A Python float is held as the real number it denotes. An arithmetic operation returns
  the binary64 number nearest to the exact result, a tie going to the even significand:
  the significand has 53 bits, and below \<open>2 ^ -1022\<close> the numbers are spaced \<open>2 ^ -1074\<close>
  apart. Results of magnitude \<open>2 ^ 1024\<close> and above do not arise in this program.
\<close>

definition round_half_even :: "real \<Rightarrow> int" where
  "round_half_even y =
     (let f = \<lfloor>y\<rfloor>
      in if y - of_int f < 1 / 2 then f
         else if 1 / 2 < y - of_int f then f + 1
         else if even f then f else f + 1)"

text \<open>The exponent \<open>e\<close> with \<open>2 ^ e \<le> x < 2 ^ (e + 1)\<close>, and that of the last place of \<open>x\<close>.\<close>

definition binade :: "real \<Rightarrow> int" where
  "binade x = \<lfloor>log 2 x\<rfloor>"

definition ulp_exp :: "real \<Rightarrow> int" where
  "ulp_exp x = max (binade x - 52) (- 1074)"

definition b64 :: "real \<Rightarrow> real" where
  "b64 x =
     (if x = 0 then 0
      else sgn x * (of_int (round_half_even (\<bar>x\<bar> / 2 powi ulp_exp \<bar>x\<bar>)) * 2 powi ulp_exp \<bar>x\<bar>))"

text \<open>
  \<open>a / b\<close> on two integers is the correctly rounded quotient, and \<open>x * y\<close> on floats the
  correctly rounded product. The only division of \<open>get_accuracy\<close> is guarded: its divisor
  is the length of a history that is not empty.
\<close>

definition int_truediv :: "int \<Rightarrow> int \<Rightarrow> real" where
  "int_truediv a b = b64 (real_of_int a / real_of_int b)"

definition float_mul :: "real \<Rightarrow> real \<Rightarrow> real" where
  "float_mul x y = b64 (x * y)"

section \<open>The trial engine: class \<open>QuantumCollapse\<close>\<close>

text \<open>
  A history entry is the dictionary with the keys \<open>'flip'\<close>, \<open>'prediction'\<close>, \<open>'actual'\<close>
  and \<open>'correct'\<close>. The accuracy is computed in binary64 as the source does; the
  statistics of the driver, which only print, are computed from it in real arithmetic.
\<close>

record trial =
  flip :: int
  prediction :: int
  actual :: int
  correct :: bool

record QuantumCollapse =
  seed :: string
  history :: "trial list"

definition default_seed :: string where
  "default_seed = ''ejhollenhub2026''"

definition QuantumCollapse_init :: "string \<Rightarrow> QuantumCollapse" where
  "QuantumCollapse_init s = \<lparr>seed = s, history = []\<rparr>"

definition pure_random_flip :: "entropy \<Rightarrow> int \<times> entropy" where
  "pure_random_flip rng =
     (case random_random rng of (x, rng') \<Rightarrow> (if x < 0.5 then 1 else 0, rng'))"

definition history_str :: "QuantumCollapse \<Rightarrow> string" where
  "history_str qc = concat (map (\<lambda>h. str_int (actual h)) (last10 (history qc)))"

definition quantum_state :: "QuantumCollapse \<Rightarrow> int \<Rightarrow> string" where
  "quantum_state qc flip_num = seed qc @ str_int flip_num @ history_str qc"

definition quantum_num :: "QuantumCollapse \<Rightarrow> int \<Rightarrow> py_error + int" where
  "quantum_num qc flip_num =
     (case int16 (hexdigest (sha256 (encode (quantum_state qc flip_num)))) of
        Inl e \<Rightarrow> Inl e
      | Inr v \<Rightarrow> Inr (v mod 100))"

definition biphoton_cascade_prediction :: "QuantumCollapse \<Rightarrow> int \<Rightarrow> py_error + int" where
  "biphoton_cascade_prediction qc flip_num =
     (case quantum_num qc flip_num of
        Inl e \<Rightarrow> Inl e
      | Inr q \<Rightarrow> Inr (if q < 85 then 1 else 0))"

text \<open>
  \<open>run_trial\<close> returns the triple, the engine with its history extended, and the entropy
  left. An exception of the prediction leaves before the flip is drawn.
\<close>

definition run_trial ::
  "QuantumCollapse \<Rightarrow> int \<Rightarrow> entropy \<Rightarrow> py_error + ((int \<times> int \<times> bool) \<times> QuantumCollapse \<times> entropy)"
where
  "run_trial qc flip_num rng =
     (case biphoton_cascade_prediction qc flip_num of
        Inl e \<Rightarrow> Inl e
      | Inr p \<Rightarrow>
          (case pure_random_flip rng of
             (a, rng') \<Rightarrow>
               let c = (p = a)
               in Inr ((p, a, c),
                       qc\<lparr>history := history qc @
                            [\<lparr>flip = flip_num, prediction = p, actual = a, correct = c\<rparr>]\<rparr>,
                       rng')))"

definition get_accuracy :: "QuantumCollapse \<Rightarrow> real" where
  "get_accuracy qc =
     (if history qc = [] then 50
      else let c = sum_list (map (\<lambda>h. 1 :: int) (filter correct (history qc)))
           in float_mul (int_truediv c (int (length (history qc)))) 100)"

section \<open>The driver: \<open>run_quantum_poc\<close>\<close>





section \<open>The vocabulary of the specification\<close>

text \<open>
  The digest read as one large integer: its bytes, most significant first, in base 256.
\<close>

definition be_nat :: "byte list \<Rightarrow> nat" where
  "be_nat bs = foldl (\<lambda>acc b. 256 * acc + unat b) 0 bs"

text \<open>The last \<open>k\<close> entries of a sequence, or all of them when there are fewer.\<close>

definition last_at_most :: "nat \<Rightarrow> 'a list \<Rightarrow> 'a list" where
  "last_at_most k xs = rev (take k (rev xs))"

text \<open>
  The string that is hashed: the seed, the decimal trial index, and the \<open>actual\<close> values of
  the last at most ten records.
\<close>

definition predict_input :: "string \<Rightarrow> int \<Rightarrow> trial list \<Rightarrow> string" where
  "predict_input s i h =
     s @ str_int i @ concat (map (\<lambda>r. str_int (actual r)) (last_at_most 10 h))"

definition digest_mod :: "string \<Rightarrow> int \<Rightarrow> trial list \<Rightarrow> int" where
  "digest_mod s i h = int (be_nat (sha256 (encode (predict_input s i h)))) mod 100"

text \<open>The number of records whose \<open>correct\<close> field is true.\<close>

definition correct_count :: "trial list \<Rightarrow> nat" where
  "correct_count h = length (filter correct h)"


text \<open>
  A history as the driver can leave it: 100 trials, all predicted 1, of which the first
  seven came out 1.
\<close>

definition seven_of_hundred :: QuantumCollapse where
  "seven_of_hundred =
     \<lparr>seed = default_seed,
      history = map (\<lambda>i. \<lparr>flip = i, prediction = 1, actual = (if i \<le> 7 then 1 else 0),
                             correct = (i \<le> 7)\<rparr>) [1..100]\<rparr>"

section \<open>The digest as an integer\<close>

text \<open>The decimal conversion and the slice on small inputs.\<close>

lemma str_int_examples:
  "str_int 100 = ''100'' \<and> str_int 0 = ''0'' \<and> str_int (- 42) = ''-42''"
  by code_simp

lemma last10_examples:
  "last10 [1, 2, 3 :: nat] = [1, 2, 3] \<and>
   last10 [1, 2, 3, 4, 5, 6, 7, 8, 9, 10, 11, 12 :: nat] = [3, 4, 5, 6, 7, 8, 9, 10, 11, 12]"
  by (simp add: last10_def)

lemma hex_value_hex_char: "d < 16 \<Longrightarrow> hex_value (hex_char d) = Some d"
  by (auto simp: hex_value_def hex_char_def Let_def)

lemma int16_digits_hexdigest:
  "int16_digits (int a) (hexdigest bs) = Inr (int (foldl (\<lambda>acc b. 256 * acc + unat b) a bs))"
proof (induction bs arbitrary: a)
  case Nil
  show ?case by (simp add: hexdigest_def)
next
  case (Cons b bs)
  have hd: "hexdigest (b # bs) = hex_char (unat b div 16) # hex_char (unat b mod 16) # hexdigest bs"
    by (simp add: hexdigest_def)
  have lt: "unat b div 16 < 16"
  proof -
    have "unat b < 2 ^ 8" using unsigned_less [of b, where 'a = nat] by simp
    then show ?thesis by simp
  qed
  have lt2: "unat b mod 16 < 16" by simp
  have "unat b = 16 * (unat b div 16) + unat b mod 16" by simp
  then have "int (256 * a + unat b) = 256 * int a + (16 * int (unat b div 16) + int (unat b mod 16))"
    by (metis of_nat_add of_nat_mult of_nat_numeral)
  then have eq: "16 * (16 * int a + int (unat b div 16)) + int (unat b mod 16) = int (256 * a + unat b)"
    by simp
  have step: "int16_digits (int a) (hexdigest (b # bs)) =
      int16_digits (16 * (16 * int a + int (unat b div 16)) + int (unat b mod 16)) (hexdigest bs)"
    unfolding hd
    by (simp only: int16_digits.simps hex_value_hex_char [OF lt] hex_value_hex_char [OF lt2]
        option.case)
  show ?case
    unfolding step eq using Cons.IH [of "256 * a + unat b"] by (simp only: foldl_Cons)
qed

lemma length_sha256: "length (sha256 m) = 32"
  by (simp add: sha256_def Let_def be_bytes32_def split: prod.splits)

text \<open>The digest is never empty and holds hexadecimal digits only: \<open>int(..., 16)\<close> returns.\<close>

lemma int16_sha256: "int16 (hexdigest (sha256 m)) = Inr (int (be_nat (sha256 m)))"
proof -
  have "sha256 m \<noteq> []" using length_sha256 [of m] by auto
  then have "hexdigest (sha256 m) \<noteq> []"
    by (cases "sha256 m") (simp_all add: hexdigest_def)
  then show ?thesis
    using int16_digits_hexdigest [of 0 "sha256 m"] by (simp add: int16_def be_nat_def)
qed

lemma last10_last_at_most: "last10 xs = last_at_most 10 xs"
  by (simp add: last10_def last_at_most_def rev_take)

lemma quantum_state_predict_input: "quantum_state qc i = predict_input (seed qc) i (history qc)"
  by (simp add: quantum_state_def history_str_def predict_input_def last10_last_at_most)

lemma quantum_num_digest_mod: "quantum_num qc i = Inr (digest_mod (seed qc) i (history qc))"
  by (simp add: quantum_num_def int16_sha256 digest_mod_def quantum_state_predict_input)

lemma prediction_eq:
  "biphoton_cascade_prediction qc i =
     Inr (if digest_mod (seed qc) i (history qc) < 85 then 1 else 0)"
  by (simp add: biphoton_cascade_prediction_def quantum_num_digest_mod)

text \<open>
  The first trial of the driver hashes \<open>ejhollenhub20261\<close>, whose SHA-256 digest is
  \<open>5560cbf6...0f4dff84\<close>, a multiple of 100.
\<close>

lemma quantum_num_first_trial: "quantum_num (QuantumCollapse_init default_seed) 1 = Inr 0"
  by code_simp

section \<open>The prediction\<close>

text \<open>
  Claim C1. For every trial index and every history, the prediction is 1 exactly when the
  SHA-256 digest of the seed, followed by the decimal index and by the \<open>actual\<close> values of
  the last at most ten records, read as one large integer and reduced modulo 100, is less
  than 85, and it is 0 otherwise; that reduced value is at least 0 and less than 100.
\<close>

theorem prediction_spec:
  "biphoton_cascade_prediction qc i =
     Inr (if digest_mod (seed qc) i (history qc) < 85 then 1 else 0)
   \<and> 0 \<le> digest_mod (seed qc) i (history qc)
   \<and> digest_mod (seed qc) i (history qc) < 100"
  by (simp add: biphoton_cascade_prediction_def quantum_num_digest_mod digest_mod_def)

lemma last_at_most_map: "map f (last_at_most k xs) = last_at_most k (map f xs)"
  by (simp add: last_at_most_def rev_map take_map)

lemma predict_input_actual:
  "predict_input s i h =
     s @ str_int i @ concat (map str_int (last_at_most 10 (map actual h)))"
  by (simp add: predict_input_def last_at_most_map [symmetric] comp_def)

text \<open>
  Claim C5. The prediction is a function of the seed, the trial index and the \<open>actual\<close>
  fields of the history only: two engines with the same seed whose histories agree on
  those fields predict the same for every index, whatever their other fields hold.
\<close>

theorem prediction_deterministic:
  assumes "seed qc1 = seed qc2" and "map actual (history qc1) = map actual (history qc2)"
  shows "biphoton_cascade_prediction qc1 i = biphoton_cascade_prediction qc2 i"
  using assms by (simp add: prediction_eq digest_mod_def predict_input_actual)

theorem prediction_deterministic_witness:
  "seed \<lparr>seed = ''s'', history = [\<lparr>flip = 1, prediction = 1, actual = 0, correct = False\<rparr>]\<rparr>
     = seed \<lparr>seed = ''s'', history = [\<lparr>flip = 7, prediction = 0, actual = 0, correct = True\<rparr>]\<rparr>
   \<and> map actual (history \<lparr>seed = ''s'', history = [\<lparr>flip = 1, prediction = 1, actual = 0, correct = False\<rparr>]\<rparr>)
     = map actual (history \<lparr>seed = ''s'', history = [\<lparr>flip = 7, prediction = 0, actual = 0, correct = True\<rparr>]\<rparr>)
   \<and> biphoton_cascade_prediction
        \<lparr>seed = ''s'', history = [\<lparr>flip = 1, prediction = 1, actual = 0, correct = False\<rparr>]\<rparr> 2
     = biphoton_cascade_prediction
        \<lparr>seed = ''s'', history = [\<lparr>flip = 7, prediction = 0, actual = 0, correct = True\<rparr>]\<rparr> 2"
  using prediction_deterministic
    [of "\<lparr>seed = ''s'', history = [\<lparr>flip = 1, prediction = 1, actual = 0, correct = False\<rparr>]\<rparr>"
        "\<lparr>seed = ''s'', history = [\<lparr>flip = 7, prediction = 0, actual = 0, correct = True\<rparr>]\<rparr>" 2]
  by simp

section \<open>The random flip\<close>

lemma pure_random_flip_eq:
  "pure_random_flip rng = (if real (unat (rng 0)) / 2 ^ 53 < 0.5 then 1 else 0, \<lambda>n. rng (Suc n))"
  by (simp add: pure_random_flip_def random_random_def)

text \<open>
  Claim C6. Whatever the generator supplies, \<open>pure_random_flip\<close> returns 0 or 1; it has no
  error result.
\<close>

theorem pure_random_flip_bit:
  "fst (pure_random_flip rng) = 0 \<or> fst (pure_random_flip rng) = 1"
  by (simp add: pure_random_flip_eq)

section \<open>One trial\<close>

lemma run_trial_eq:
  "run_trial qc i rng =
     (let p = (if digest_mod (seed qc) i (history qc) < 85 then 1 else 0);
          a = fst (pure_random_flip rng)
      in Inr ((p, a, p = a),
              qc\<lparr>history := history qc @
                   [\<lparr>flip = i, prediction = p, actual = a, correct = (p = a)\<rparr>]\<rparr>,
              \<lambda>n. rng (Suc n)))"
  by (simp add: run_trial_def prediction_eq pure_random_flip_eq Let_def)

text \<open>
  Claim C3. A trial makes the history longer by exactly one record, and its prediction is
  the one computed from the engine as it was before the trial: it is fixed before the
  outcome is drawn, so it is the same for every outcome the generator may supply.
\<close>

theorem run_trial_causal:
  "\<exists>p. biphoton_cascade_prediction qc i = Inr p \<and>
     (\<forall>rng. \<exists>a c qc' rng'. run_trial qc i rng = Inr ((p, a, c), qc', rng') \<and>
        length (history qc') = length (history qc) + 1)"
  by (simp add: prediction_eq run_trial_eq Let_def)

text \<open>
  Claim C4. A trial takes its prediction from \<open>biphoton_cascade_prediction\<close> on the engine
  before the trial and its outcome from \<open>pure_random_flip\<close>; both are 0 or 1; the record it
  appends holds the trial index, the prediction, the outcome and whether the two are
  equal; and the triple of prediction, outcome and that comparison is returned.
\<close>

theorem run_trial_record:
  "\<exists>p a rng'. biphoton_cascade_prediction qc i = Inr p \<and> pure_random_flip rng = (a, rng') \<and>
     (p = 0 \<or> p = 1) \<and> (a = 0 \<or> a = 1) \<and>
     run_trial qc i rng =
       Inr ((p, a, p = a),
            qc\<lparr>history := history qc @
                 [\<lparr>flip = i, prediction = p, actual = a, correct = (p = a)\<rparr>]\<rparr>,
            rng')"
  by (simp add: prediction_eq run_trial_eq pure_random_flip_eq Let_def)

text \<open>
  Claim C9. A trial only appends: the history after it is the history before it followed
  by one new record, so the earlier records keep their fields, values and order; the seed
  is untouched.
\<close>

theorem run_trial_append_only:
  "\<exists>out r qc' rng'. run_trial qc i rng = Inr (out, qc', rng') \<and>
     history qc' = history qc @ [r] \<and>
     take (length (history qc)) (history qc') = history qc \<and>
     seed qc' = seed qc"
  by (simp add: run_trial_eq Let_def)

section \<open>Rounding to binary64\<close>

lemma round_half_even_le: "y \<le> of_int m \<Longrightarrow> round_half_even y \<le> m"
  unfolding round_half_even_def Let_def by (auto; linarith)

lemma round_half_even_ge: "of_int m \<le> y \<Longrightarrow> m \<le> round_half_even y"
  unfolding round_half_even_def Let_def by (auto; linarith)

lemma round_half_even_near: "\<bar>of_int (round_half_even y) - y\<bar> \<le> 1 / 2"
  unfolding round_half_even_def Let_def by (auto; linarith)

lemma binade_bounds:
  assumes "0 < x"
  shows "2 powi binade x \<le> x" and "x < 2 powi (binade x + 1)"
proof -
  have "\<lfloor>log 2 x\<rfloor> = binade x" by (simp add: binade_def)
  then have "2 powr real_of_int (binade x) \<le> x \<and> x < 2 powr (real_of_int (binade x) + 1)"
    using floor_log_eq_powr_iff [of x 2 "binade x"] assms by simp
  moreover have "(2::real) powr real_of_int (binade x) = 2 powi binade x"
    by (rule powr_real_of_int') simp_all
  moreover have "(2::real) powr (real_of_int (binade x) + 1) = 2 powi (binade x + 1)"
    using powr_real_of_int' [of "2::real" "binade x + 1"] by simp
  ultimately show "2 powi binade x \<le> x" and "x < 2 powi (binade x + 1)" by simp_all
qed

lemma binade_eqI:
  assumes "2 powi e \<le> x" and "x < 2 powi (e + 1)"
  shows "binade x = e"
proof -
  have pos: "0 < x" using assms(1) zero_less_power_int [of "2::real" e] by linarith
  have "(2::real) powr real_of_int e = 2 powi e"
    by (rule powr_real_of_int') simp_all
  moreover have "(2::real) powr (real_of_int e + 1) = 2 powi (e + 1)"
    using powr_real_of_int' [of "2::real" "e + 1"] by simp
  ultimately show ?thesis
    unfolding binade_def using floor_log_eq_powr_iff [of x 2 e] pos assms by simp
qed

lemma binade_less:
  assumes "0 < x" and "x < 2 powi n"
  shows "binade x < n"
proof (rule ccontr)
  assume "\<not> binade x < n"
  then have "n \<le> binade x" by simp
  then have "(2::real) powi n \<le> 2 powi binade x" by (intro power_int_increasing) simp_all
  with binade_bounds(1) [OF assms(1)] assms(2) show False by linarith
qed

lemma binade_ge:
  assumes "2 powi n \<le> x"
  shows "n \<le> binade x"
proof (rule ccontr)
  assume "\<not> n \<le> binade x"
  then have "binade x + 1 \<le> n" by simp
  then have "(2::real) powi (binade x + 1) \<le> 2 powi n" by (intro power_int_increasing) simp_all
  moreover have "0 < x" using assms zero_less_power_int [of "2::real" n] by linarith
  ultimately show False using binade_bounds(2) [of x] assms by linarith
qed

lemma b64_pos:
  "0 < x \<Longrightarrow> b64 x = of_int (round_half_even (x / 2 powi ulp_exp x)) * 2 powi ulp_exp x"
  by (simp add: b64_def)

lemma b64_nonneg: "0 \<le> x \<Longrightarrow> 0 \<le> b64 x"
proof (cases "x = 0")
  case True
  then show ?thesis by (simp add: b64_def)
next
  case False
  assume "0 \<le> x"
  with False have pos: "0 < x" by simp
  have "of_int 0 \<le> x / 2 powi ulp_exp x" using pos by simp
  then have "0 \<le> round_half_even (x / 2 powi ulp_exp x)" by (rule round_half_even_ge)
  then show ?thesis by (simp add: b64_pos [OF pos])
qed

text \<open>Rounding does not cross an integer: below \<open>2 ^ 53\<close> every integer is a binary64 number.\<close>

lemma b64_le_int:
  assumes pos: "0 < x" and le: "x \<le> of_int m" and small: "x < 2 ^ 53"
  shows "b64 x \<le> of_int m"
proof -
  define k where "k = ulp_exp x"
  have "binade x < 53" using binade_less [OF pos, of 53] small by simp
  then have k0: "k \<le> 0" by (simp add: k_def ulp_exp_def)
  have u: "(2::real) powi k = 1 / 2 ^ nat (- k)"
    using k0 by (simp add: power_int_def field_simps power_inverse)
  define n where "n = nat (- k)"
  define R :: real where "R = of_int (round_half_even (x * 2 ^ n))"
  have u': "(2::real) powi k = 1 / 2 ^ n" using u by (simp add: n_def)
  have "x * 2 ^ n \<le> of_int (m * 2 ^ n)"
    using le by (simp add: mult_right_mono)
  then have "round_half_even (x * 2 ^ n) \<le> m * 2 ^ n"
    by (rule round_half_even_le)
  then have "R \<le> real_of_int (m * 2 ^ n)"
    unfolding R_def by (simp only: of_int_le_iff)
  then have "R \<le> real_of_int m * 2 ^ n" by simp
  then have "R / 2 ^ n \<le> real_of_int m"
    by (simp add: pos_divide_le_eq)
  moreover have "b64 x = R / 2 ^ n"
    by (simp add: b64_pos [OF pos] k_def [symmetric] u' R_def)
  ultimately show ?thesis by simp
qed

text \<open>From \<open>2 ^ -1022\<close> on, rounding changes a number by at most the \<open>2 ^ 53\<close>-th part of it.\<close>

lemma b64_error:
  assumes normal: "2 powi (- 1022) \<le> x"
  shows "\<bar>b64 x - x\<bar> \<le> x / 2 ^ 53"
proof -
  have pos: "0 < x" using normal zero_less_power_int [of "2::real" "- 1022"] by linarith
  define e where "e = binade x"
  have "- 1022 \<le> e" unfolding e_def using normal by (rule binade_ge)
  then have k: "ulp_exp x = e - 52" by (simp add: ulp_exp_def e_def)
  define u :: real where "u = 2 powi (e - 52)"
  have upos: "0 < u" by (simp add: u_def)
  have u2: "u * 2 ^ 52 = 2 powi e"
    by (simp add: u_def power_int_diff)
  have "\<bar>of_int (round_half_even (x / u)) - x / u\<bar> \<le> 1 / 2"
    by (rule round_half_even_near)
  then have "\<bar>of_int (round_half_even (x / u)) - x / u\<bar> * u \<le> 1 / 2 * u"
    using upos by (intro mult_right_mono) simp_all
  moreover have "\<bar>of_int (round_half_even (x / u)) - x / u\<bar> * u
      = \<bar>of_int (round_half_even (x / u)) * u - x\<bar>"
  proof -
    have "\<bar>of_int (round_half_even (x / u)) - x / u\<bar> * u
        = \<bar>(of_int (round_half_even (x / u)) - x / u) * u\<bar>"
      using upos by (simp add: abs_mult)
    also have "(of_int (round_half_even (x / u)) - x / u) * u
        = of_int (round_half_even (x / u)) * u - x"
      using upos by (simp add: field_simps)
    finally show ?thesis .
  qed
  moreover have bx: "b64 x = of_int (round_half_even (x / u)) * u"
    by (simp add: b64_pos [OF pos] k u_def)
  ultimately have "\<bar>b64 x - x\<bar> \<le> u / 2"
    by linarith
  moreover have "u / 2 \<le> x / 2 ^ 53"
  proof -
    have "2 powi e \<le> x" unfolding e_def using pos by (rule binade_bounds(1))
    then have "u * 2 ^ 52 \<le> x" by (simp only: u2)
    then show ?thesis by (simp add: field_simps)
  qed
  ultimately show ?thesis by linarith
qed

lemma b64_eval:
  assumes "2 powi e \<le> x" and "x < 2 powi (e + 1)" and "- 1022 \<le> e"
  shows "b64 x = of_int (round_half_even (x / 2 powi (e - 52))) * 2 powi (e - 52)"
proof -
  have pos: "0 < x" using assms(1) zero_less_power_int [of "2::real" e] by linarith
  have "binade x = e" using assms(1,2) by (rule binade_eqI)
  then have "ulp_exp x = e - 52" using assms(3) by (simp add: ulp_exp_def)
  then show ?thesis by (simp add: b64_pos [OF pos])
qed

text \<open>
  The two roundings of \<open>(7 / 100) * 100\<close>: the quotient is rounded up to
  \<open>0.07000000000000000666\<close>, and its product by 100 up to \<open>7.000000000000001\<close>.
\<close>

lemma b64_7_100: "b64 (7 / 100) = 5044031582654956 / 2 ^ 56"
  using b64_eval [of "- 4" "7 / 100"] by (simp add: round_half_even_def)

lemma b64_7_100_times_100: "b64 (5044031582654956 / 2 ^ 56 * 100) = 7 + 1 / 2 ^ 50"
  using b64_eval [of 2 "5044031582654956 / 2 ^ 56 * 100"] by (simp add: round_half_even_def)

section \<open>The accuracy\<close>

lemma sum_list_ones: "sum_list (map (\<lambda>h. 1 :: int) xs) = int (length xs)"
  by (induction xs) simp_all

lemma get_accuracy_nonempty:
  "history qc \<noteq> [] \<Longrightarrow>
     get_accuracy qc =
       b64 (b64 (real (correct_count (history qc)) / real (length (history qc))) * 100)"
  by (simp add: get_accuracy_def Let_def sum_list_ones correct_count_def int_truediv_def
      float_mul_def)

lemma correct_count_le: "correct_count h \<le> length h"
  by (simp add: correct_count_def)

text \<open>
  Two roundings of a quotient that is no smaller than \<open>2 ^ -1022\<close> leave the result within
  the \<open>2 ^ 51\<close>-th part of the exact percentage.
\<close>

lemma percent_error:
  assumes normal: "2 powi (- 1022) \<le> x"
  shows "\<bar>b64 (b64 x * 100) - 100 * x\<bar> \<le> 100 * x / 2 ^ 51"
proof -
  define q where "q = b64 x"
  define r where "r = b64 (q * 100)"
  define d where "d = x / 2 ^ 53"
  define d' where "d' = q * 100 / 2 ^ 53"
  define g where "g = 100 * x / 2 ^ 51"
  have d: "d * 9007199254740992 = x" by (simp add: d_def)
  have d': "d' * 9007199254740992 = q * 100" by (simp add: d'_def)
  have g: "g * 2251799813685248 = 100 * x" by (simp add: g_def)
  have pos: "0 < x" using normal zero_less_power_int [of "2::real" "- 1022"] by linarith
  have "\<bar>q - x\<bar> \<le> d" unfolding q_def d_def using normal by (rule b64_error)
  then have q1: "q - x \<le> d" and q2: "- (q - x) \<le> d"
    by (simp_all only: abs_le_iff)
  have "x \<le> q * 100" using q2 d pos by linarith
  then have "2 powi (- 1022) \<le> q * 100" using normal by linarith
  then have "\<bar>r - q * 100\<bar> \<le> d'" unfolding r_def d'_def by (rule b64_error)
  then have r1: "r - q * 100 \<le> d'" and r2: "- (r - q * 100) \<le> d'"
    by (simp_all only: abs_le_iff)
  have "r - 100 * x \<le> g" using q1 r1 d d' g pos by linarith
  moreover have "- (r - 100 * x) \<le> g" using q2 r2 d d' g pos by linarith
  ultimately have "\<bar>r - 100 * x\<bar> \<le> g" by (simp only: abs_le_iff)
  then show ?thesis by (simp only: r_def q_def g_def)
qed

lemma seven_of_hundred_counts:
  "history seven_of_hundred \<noteq> [] \<and> length (history seven_of_hundred) = 100 \<and>
   correct_count (history seven_of_hundred) = 7"
  by (simp add: seven_of_hundred_def correct_count_def) code_simp

lemma get_accuracy_seven_of_hundred: "get_accuracy seven_of_hundred = 7 + 1 / 2 ^ 50"
proof -
  have "get_accuracy seven_of_hundred = b64 (b64 (7 / 100) * 100)"
    using get_accuracy_nonempty [of seven_of_hundred] seven_of_hundred_counts by simp
  then show ?thesis by (simp only: b64_7_100 b64_7_100_times_100)
qed

text \<open>
  Claim C2, as the code has it. On an empty history the accuracy is 50. On a history of
  \<open>N \<ge> 1\<close> records it is the binary64 product by 100 of the binary64 quotient of the number
  of records whose \<open>correct\<close> field is true by \<open>N\<close>; for \<open>N\<close> up to \<open>2 ^ 1022\<close> this differs
  from 100 times that number divided by \<open>N\<close> by at most the \<open>2 ^ 51\<close>-th part of it.
\<close>

theorem get_accuracy_rounded:
  "get_accuracy (qc\<lparr>history := []\<rparr>) = 50 \<and>
   (history qc \<noteq> [] \<longrightarrow>
      get_accuracy qc =
        b64 (b64 (real (correct_count (history qc)) / real (length (history qc))) * 100)) \<and>
   (history qc \<noteq> [] \<and> length (history qc) \<le> 2 ^ 1022 \<longrightarrow>
      \<bar>get_accuracy qc - 100 * real (correct_count (history qc)) / real (length (history qc))\<bar>
        \<le> 100 * real (correct_count (history qc)) / real (length (history qc)) / 2 ^ 51)"
proof (intro conjI impI)
  show "get_accuracy (qc\<lparr>history := []\<rparr>) = 50" by (simp add: get_accuracy_def)
next
  assume "history qc \<noteq> []"
  then show "get_accuracy qc =
      b64 (b64 (real (correct_count (history qc)) / real (length (history qc))) * 100)"
    by (rule get_accuracy_nonempty)
next
  assume a: "history qc \<noteq> [] \<and> length (history qc) \<le> 2 ^ 1022"
  define c where "c = correct_count (history qc)"
  define n where "n = length (history qc)"
  have ne: "history qc \<noteq> []" and n_le: "n \<le> 2 ^ 1022" using a by (simp_all add: n_def)
  have n_pos: "0 < n" using ne by (simp add: n_def)
  have acc: "get_accuracy qc = b64 (b64 (real c / real n) * 100)"
    using get_accuracy_nonempty [OF ne] by (simp add: c_def n_def)
  show "\<bar>get_accuracy qc - 100 * real (correct_count (history qc)) / real (length (history qc))\<bar>
        \<le> 100 * real (correct_count (history qc)) / real (length (history qc)) / 2 ^ 51"
  proof (cases "c = 0")
    case True
    then show ?thesis using acc by (simp add: c_def [symmetric] n_def [symmetric] b64_def)
  next
    case False
    then have "1 \<le> real c" by simp
    moreover have "real n \<le> 2 ^ 1022" using n_le by (metis of_nat_le_iff of_nat_numeral of_nat_power)
    moreover have "0 < real n" using n_pos by simp
    ultimately have "1 / 2 ^ 1022 \<le> real c / real n"
      by (intro frac_le) simp_all
    moreover have "(2::real) powi (- 1022) = 1 / 2 ^ 1022"
      by (simp add: power_int_minus_divide)
    ultimately have "2 powi (- 1022) \<le> real c / real n" by (simp only:)
    then have "\<bar>b64 (b64 (real c / real n) * 100) - 100 * (real c / real n)\<bar>
        \<le> 100 * (real c / real n) / 2 ^ 51"
      by (rule percent_error)
    then show ?thesis using acc by (simp add: c_def [symmetric] n_def [symmetric])
  qed
qed

theorem get_accuracy_rounded_witness:
  "history seven_of_hundred \<noteq> [] \<and> length (history seven_of_hundred) \<le> 2 ^ 1022 \<and>
   get_accuracy seven_of_hundred = 7 + 1 / 2 ^ 50 \<and>
   \<bar>get_accuracy seven_of_hundred - 7\<bar> \<le> 7 / 2 ^ 51"
proof -
  note spec = get_accuracy_rounded [of seven_of_hundred]
  have ne: "history seven_of_hundred \<noteq> []"
    and len: "length (history seven_of_hundred) = 100"
    and cnt: "correct_count (history seven_of_hundred) = 7"
    using seven_of_hundred_counts by simp_all
  have small: "length (history seven_of_hundred) \<le> 2 ^ 1022" by (simp add: len)
  have "get_accuracy seven_of_hundred =
      b64 (b64 (real (correct_count (history seven_of_hundred))
                  / real (length (history seven_of_hundred))) * 100)"
    using spec ne by blast
  then have "get_accuracy seven_of_hundred = b64 (b64 (7 / 100) * 100)"
    by (simp add: len cnt)
  then have val: "get_accuracy seven_of_hundred = 7 + 1 / 2 ^ 50"
    by (simp only: b64_7_100 b64_7_100_times_100)
  have "\<bar>get_accuracy seven_of_hundred
          - 100 * real (correct_count (history seven_of_hundred))
              / real (length (history seven_of_hundred))\<bar>
      \<le> 100 * real (correct_count (history seven_of_hundred))
              / real (length (history seven_of_hundred)) / 2 ^ 51"
    using spec ne small by blast
  then have "\<bar>get_accuracy seven_of_hundred - 7\<bar> \<le> 7 / 2 ^ 51"
    by (simp add: len cnt)
  with ne small val show ?thesis by (simp only: simp_thms)
qed

text \<open>
  The exact value of the claim fails on that history: seven correct records of 100 make
  \<open>100 * 7 / 100 = 7\<close>, and the code returns \<open>7.000000000000001\<close>.
\<close>

theorem get_accuracy_exact_counterexample:
  "history seven_of_hundred \<noteq> [] \<and>
   100 * real (correct_count (history seven_of_hundred)) / real (length (history seven_of_hundred)) = 7 \<and>
   get_accuracy seven_of_hundred = 7 + 1 / 2 ^ 50 \<and>
   get_accuracy seven_of_hundred \<noteq>
     100 * real (correct_count (history seven_of_hundred)) / real (length (history seven_of_hundred))"
  using seven_of_hundred_counts get_accuracy_seven_of_hundred by simp

text \<open>Claim C10. For every history, empty or not, the accuracy lies between 0 and 100.\<close>

theorem get_accuracy_range: "0 \<le> get_accuracy qc \<and> get_accuracy qc \<le> 100"
proof (cases "history qc = []")
  case True
  then show ?thesis by (simp add: get_accuracy_def)
next
  case False
  define x where "x = real (correct_count (history qc)) / real (length (history qc))"
  have acc: "get_accuracy qc = b64 (b64 x * 100)"
    using get_accuracy_nonempty [OF False] by (simp add: x_def)
  have x0: "0 \<le> x" by (simp add: x_def)
  have x1: "x \<le> 1"
    using correct_count_le [of "history qc"] False by (simp add: x_def divide_le_eq_1)
  have q0: "0 \<le> b64 x" using x0 by (rule b64_nonneg)
  have q1: "b64 x \<le> 1"
  proof (cases "x = 0")
    case True
    then show ?thesis by (simp add: b64_def)
  next
    case False
    with x0 have "0 < x" by simp
    moreover have "x \<le> of_int 1" using x1 by simp
    moreover have "x < 2 ^ 53" using x1 by simp
    ultimately have "b64 x \<le> of_int 1" by (rule b64_le_int)
    then show ?thesis by simp
  qed
  have lo: "0 \<le> b64 (b64 x * 100)" using q0 by (intro b64_nonneg) simp
  have hi: "b64 (b64 x * 100) \<le> 100"
  proof (cases "b64 x = 0")
    case True
    then show ?thesis by (simp add: b64_def)
  next
    case False
    with q0 have "0 < b64 x * 100" by simp
    moreover have "b64 x * 100 \<le> of_int 100" using q1 by simp
    moreover have "b64 x * 100 < 2 ^ 53" using q1 by simp
    ultimately have "b64 (b64 x * 100) \<le> of_int 100" by (rule b64_le_int)
    then show ?thesis by simp
  qed
  show ?thesis using acc lo hi by simp
qed

section \<open>The driver\<close>






end
